theory Spec2Isabelle
  imports Main "HOL-Library.Word" "HOL-Library.List_Lexorder" "HOL-Library.Sublist"
begin

section \<open>JavaScript strings\<close>

text \<open>
  A JavaScript string is a sequence of UTF-16 code units.  The relational operators on two
  strings compare them code unit by code unit, a proper prefix being the smaller one: this
  is the order that the theory \<open>HOL-Library.List_Lexorder\<close> puts on lists.
\<close>

type_synonym code_unit = "16 word"

type_synonym jsstring = "code_unit list"

text \<open>An ASCII literal as a JavaScript string.\<close>

definition js :: "string \<Rightarrow> jsstring" where
  "js s = map of_char s"

definition isAZ :: "code_unit \<Rightarrow> bool" where
  "isAZ c = (0x41 \<le> c \<and> c \<le> 0x5A)"

text \<open>
  \<open>String.prototype.toUpperCase\<close> is a built-in of the language, driven by the Unicode
  case tables.  \<open>upperUnit\<close> writes out the part of these tables that can produce a letter
  \<open>A\<close>..\<open>Z\<close>: the ASCII letters, dotless i, long s, and the special casings of sharp s,
  the Latin ligatures and the five letters with a combining mark.  Every other code unit is
  kept as it is: its real upper-case form has no code unit in \<open>A\<close>..\<open>Z\<close>, so that the
  difference is erased by the filter of \<open>normalizeWord\<close>.
\<close>

definition upperUnit :: "code_unit \<Rightarrow> jsstring" where
  "upperUnit c =
     (if 0x61 \<le> c \<and> c \<le> 0x7A then [c - 0x20]
      else if c = 0xDF then [0x53, 0x53]
      else if c = 0x131 then [0x49]
      else if c = 0x17F then [0x53]
      else if c = 0x149 then [0x2BC, 0x4E]
      else if c = 0x1F0 then [0x4A, 0x30C]
      else if c = 0x1E96 then [0x48, 0x331]
      else if c = 0x1E97 then [0x54, 0x308]
      else if c = 0x1E98 then [0x57, 0x30A]
      else if c = 0x1E99 then [0x59, 0x30A]
      else if c = 0x1E9A then [0x41, 0x2BE]
      else if c = 0xFB00 then [0x46, 0x46]
      else if c = 0xFB01 then [0x46, 0x49]
      else if c = 0xFB02 then [0x46, 0x4C]
      else if c = 0xFB03 then [0x46, 0x46, 0x49]
      else if c = 0xFB04 then [0x46, 0x46, 0x4C]
      else if c = 0xFB05 then [0x53, 0x54]
      else if c = 0xFB06 then [0x53, 0x54]
      else [c])"

definition toUpperCase :: "jsstring \<Rightarrow> jsstring" where
  "toUpperCase s = concat (map upperUnit s)"

section \<open>src/dict.ts: normalizeWord\<close>

text \<open>
  \<^verbatim>\<open>input.toUpperCase().replace(/[^A-Z]/gu, "")\<close>: the global replacement deletes every
  code point outside \<open>A\<close>..\<open>Z\<close>; on code units this keeps exactly the units in
  \<open>A\<close>..\<open>Z\<close>, since no half of a surrogate pair lies in that range.
\<close>

definition normalizeWord :: "jsstring \<Rightarrow> jsstring" where
  "normalizeWord input = filter isAZ (toUpperCase input)"


section \<open>src/dict.ts: the loaded trie and the module state\<close>

text \<open>
  \<open>TrieLike\<close> is the type the module gives to the object of the external library: a
  mandatory \<open>isWord\<close> and three optional methods.  An optional method that is absent is
  \<open>None\<close>; \<open>typeof m === "function"\<close> is \<open>m \<noteq> None\<close>.  The optional \<open>limit\<close> of
  \<open>completions\<close> is a \<open>nat option\<close>.
\<close>

record TrieLike =
  trie_isWord :: "jsstring \<Rightarrow> bool"
  trie_isPrefix :: "(jsstring \<Rightarrow> bool) option"
  trie_hasPrefix :: "(jsstring \<Rightarrow> bool) option"
  trie_completions :: "(jsstring \<Rightarrow> nat option \<Rightarrow> jsstring list) option"

text \<open>
  The errors of the module, one constructor for each message it throws.  The two load
  errors carry the URL and the HTTP status interpolated into their messages.
  \<open>ImportError\<close> is the rejection of the second \<open>import\<close> of \<open>loadPTrieCtor\<close> and
  \<open>NotAConstructorError\<close> the \<open>TypeError\<close> of \<open>new\<close> applied to a default export that
  is no constructor.
\<close>

datatype error =
    NotLoadedError
  | NoPrefixLookupError
  | MetadataLoadError jsstring nat
  | DataLoadError jsstring nat
  | PTrieResolveError
  | ImportError
  | NotAConstructorError

text \<open>
  A promise is named by its index in the list of promises created so far.  The promise of
  a load is pending (the asynchronous body still runs, holding the \<open>metaUrl\<close> it was
  started with), fulfilled, or rejected with an error.
\<close>

type_synonym promise = nat

datatype promise_state = Pending jsstring | Fulfilled | Rejected error

text \<open>
  The module state is the two variables \<open>trie\<close> and \<open>loadPromise\<close>.  The runtime around
  them holds the promises, the callers suspended at \<open>await loadPromise\<close> (each named by the
  promise it waits for), and the URLs given to \<open>fetch\<close> so far.
\<close>

record runtime =
  trie :: "TrieLike option"
  loadPromise :: "promise option"
  promises :: "promise_state list"
  awaiting :: "promise list"
  fetched :: "jsstring list"

definition initial :: runtime where
  "initial = \<lparr>trie = None, loadPromise = None, promises = [], awaiting = [], fetched = []\<rparr>"

section \<open>src/dict.ts: the queries\<close>

definition ensureLoaded :: "runtime \<Rightarrow> (error + TrieLike) \<times> runtime" where
  "ensureLoaded s =
     (case trie s of
        None \<Rightarrow> (Inl NotLoadedError, s)
      | Some t \<Rightarrow> (Inr t, s))"

definition isWord :: "jsstring \<Rightarrow> runtime \<Rightarrow> (error + bool) \<times> runtime" where
  "isWord word s =
     (let normalized = normalizeWord word in
      if normalized = [] then (Inr False, s)
      else (case ensureLoaded s of
              (Inl e, s') \<Rightarrow> (Inl e, s')
            | (Inr t, s') \<Rightarrow> (Inr (trie_isWord t normalized), s')))"

definition isPrefix :: "jsstring \<Rightarrow> runtime \<Rightarrow> (error + bool) \<times> runtime" where
  "isPrefix prefix' s =
     (let normalized = normalizeWord prefix' in
      if normalized = [] then (Inr False, s)
      else (case ensureLoaded s of
              (Inl e, s') \<Rightarrow> (Inl e, s')
            | (Inr loadedTrie, s') \<Rightarrow>
                (case trie_isPrefix loadedTrie of
                   Some f \<Rightarrow> (Inr (f normalized), s')
                 | None \<Rightarrow>
                     (case trie_hasPrefix loadedTrie of
                        Some f \<Rightarrow> (Inr (f normalized), s')
                      | None \<Rightarrow>
                          (case trie_completions loadedTrie of
                             Some f \<Rightarrow> (Inr (length (f normalized (Some 1)) > 0), s')
                           | None \<Rightarrow> (Inl NoPrefixLookupError, s'))))))"

text \<open>
  Modelled from the spec: the object of the external library that a load puts into \<open>trie\<close>
  is not part of the repository.  \<open>specTrie W\<close> is the query engine of the specification
  for the word list \<open>W\<close>: \<open>isWord s\<close> is membership in \<open>W\<close>, \<open>isPrefix s\<close> holds when some
  word of \<open>W\<close> starts with \<open>s\<close> (for the empty string: when \<open>W\<close> is not empty), and
  \<open>completions\<close> lists the words of \<open>W\<close> starting with the prefix, up to the limit.
\<close>

definition specTrie :: "jsstring list \<Rightarrow> TrieLike" where
  "specTrie W =
     \<lparr>trie_isWord = (\<lambda>s. List.member W s),
      trie_isPrefix = Some (\<lambda>s. list_ex (prefix s) W),
      trie_hasPrefix = None,
      trie_completions =
        Some (\<lambda>p limit. case limit of
                None \<Rightarrow> filter (prefix p) W
              | Some n \<Rightarrow> take n (filter (prefix p) W))\<rparr>"

definition loaded :: "TrieLike \<Rightarrow> runtime" where
  "loaded t = initial\<lparr>trie := Some t\<rparr>"

section \<open>scripts/build_dawg.mjs: assertSortedUnique\<close>

text \<open>
  The error thrown by \<open>assertSortedUnique\<close>.  Its message interpolates four values, which
  the constructor carries in the order of the message: the index \<open>i - 1\<close>, the word at that
  index, the index \<open>i\<close> and the word at that index.
\<close>

datatype validation_error = NotSortedUnique nat jsstring nat jsstring

text \<open>
  The \<open>for\<close> loop, from the index \<open>i\<close> on.  Both reads are in range: the loop starts at
  \<open>i = 1\<close> and runs while \<open>i < words.length\<close>.
\<close>

function assertSortedUnique_loop :: "jsstring list \<Rightarrow> nat \<Rightarrow> validation_error + unit" where
  "assertSortedUnique_loop words i =
     (if i < length words then
        (if words ! (i - 1) \<ge> words ! i
         then Inl (NotSortedUnique (i - 1) (words ! (i - 1)) i (words ! i))
         else assertSortedUnique_loop words (i + 1))
      else Inr ())"
  by pat_completeness auto
termination
  by (relation "measure (\<lambda>(words, i). length words - i)") auto

definition assertSortedUnique :: "jsstring list \<Rightarrow> validation_error + unit" where
  "assertSortedUnique words = assertSortedUnique_loop words 1"

section \<open>src/dict.ts: loading\<close>

text \<open>
  The collaborators of a load.  \<open>DictMeta\<close> is the type of the metadata document, with its
  two optional members.  A \<open>Response\<close> holds what the module reads of a fetch response: \<open>ok\<close>,
  \<open>status\<close>, the document \<open>json()\<close> resolves to and the string \<open>text()\<close> resolves to.
\<close>

record Artifacts =
  artifacts_dawgFile :: "jsstring option"

record DictMeta =
  meta_artifacts :: "Artifacts option"

record Response =
  resp_ok :: bool
  resp_status :: nat
  resp_json :: DictMeta
  resp_text :: jsstring

text \<open>
  What \<open>loadPTrieCtor\<close> may find in the imported module: a constructor, or an object with an
  optional member \<open>PTrie\<close>.  The module has an optional export \<open>PTrie\<close> and an optional
  default export.
\<close>

type_synonym PTrieCtor = "jsstring \<Rightarrow> TrieLike"

datatype export = Constructor PTrieCtor | Namespace "PTrieCtor option"

record PTrieModule =
  mod_PTrie :: "PTrieCtor option"
  mod_default :: "export option"

text \<open>
  The environment of one load: the response \<open>fetch\<close> resolves to for each URL; when \<open>window\<close>
  is defined, the function taking \<open>dawgFile\<close> and \<open>metaUrl\<close> to
  \<^verbatim>\<open>new URL(dawgFile, new URL(metaUrl, window.location.href)).toString()\<close>; and the module a
  dynamic \<open>import\<close> resolves to for each specifier, \<open>None\<close> when the import is rejected.
  The fetches, \<open>json()\<close>, \<open>text()\<close>, the URL resolution and a constructor are taken to return.
\<close>

record env =
  env_fetch :: "jsstring \<Rightarrow> Response"
  env_window :: "(jsstring \<Rightarrow> jsstring \<Rightarrow> jsstring) option"
  env_import :: "jsstring \<Rightarrow> PTrieModule option"

text \<open>\<^verbatim>\<open>/^https?:\/\//u.test(dawgFile)\<close>\<close>

definition isHttpUrl :: "jsstring \<Rightarrow> bool" where
  "isHttpUrl s = (prefix (js ''http://'') s \<or> prefix (js ''https://'') s)"

definition resolveAssetUrl :: "env \<Rightarrow> jsstring \<Rightarrow> jsstring \<Rightarrow> jsstring" where
  "resolveAssetUrl e metaUrl dawgFile =
     (if isHttpUrl dawgFile then dawgFile
      else (case env_window e of
              Some resolve \<Rightarrow> resolve dawgFile metaUrl
            | None \<Rightarrow> dawgFile))"

text \<open>
  \<open>loadPTrieCtor\<close>: the second import is tried when the first is rejected; then
  \<^verbatim>\<open>mod.PTrie ?? mod.default?.PTrie ?? mod.default\<close>, and the throw when nothing is found.
\<close>

definition loadPTrieCtor :: "env \<Rightarrow> error + export" where
  "loadPTrieCtor e =
     (case (case env_import e (js ''dawg-lookup/lib/ptrie'') of
              Some m \<Rightarrow> Some m
            | None \<Rightarrow> env_import e (js ''dawg-lookup/lib/ptrie.js'')) of
        None \<Rightarrow> Inl ImportError
      | Some m \<Rightarrow>
          (case (case mod_PTrie m of
                   Some c \<Rightarrow> Some (Constructor c)
                 | None \<Rightarrow>
                     (case mod_default m of
                        None \<Rightarrow> None
                      | Some (Namespace (Some c)) \<Rightarrow> Some (Constructor c)
                      | Some d \<Rightarrow> Some d)) of
             None \<Rightarrow> Inl PTrieResolveError
           | Some PTrie \<Rightarrow> Inr PTrie))"

text \<open>\<^verbatim>\<open>new PTrie(packed)\<close>: a \<open>TypeError\<close> when the value found is no constructor.\<close>

definition construct :: "export \<Rightarrow> jsstring \<Rightarrow> error + TrieLike" where
  "construct PTrie packed =
     (case PTrie of
        Constructor c \<Rightarrow> Inr (c packed)
      | Namespace _ \<Rightarrow> Inl NotAConstructorError)"

text \<open>
  The asynchronous function whose promise is stored in \<open>loadPromise\<close>, run to its end: the
  URLs it fetches after \<open>metaUrl\<close> (whose fetch is issued when the function starts), and
  either the error it rejects with or the trie it assigns to \<open>trie\<close>.
\<close>

definition loadTask :: "env \<Rightarrow> jsstring \<Rightarrow> jsstring list \<times> (error + TrieLike)" where
  "loadTask e metaUrl =
     (let metaResponse = env_fetch e metaUrl in
      if \<not> resp_ok metaResponse
      then ([], Inl (MetadataLoadError metaUrl (resp_status metaResponse)))
      else
        (let meta = resp_json metaResponse;
             dawgFile =
               (case meta_artifacts meta of
                  None \<Rightarrow> js ''dict.dawg''
                | Some a \<Rightarrow>
                    (case artifacts_dawgFile a of
                       None \<Rightarrow> js ''dict.dawg''
                     | Some f \<Rightarrow> f));
             dawgUrl = resolveAssetUrl e metaUrl dawgFile;
             dawgResponse = env_fetch e dawgUrl
         in if \<not> resp_ok dawgResponse
            then ([dawgUrl], Inl (DataLoadError dawgUrl (resp_status dawgResponse)))
            else
              (let packed = resp_text dawgResponse in
               case loadPTrieCtor e of
                 Inl err \<Rightarrow> ([dawgUrl], Inl err)
               | Inr PTrie \<Rightarrow> ([dawgUrl], construct PTrie packed))))"

text \<open>
  \<open>loadDictionary\<close> runs in three parts, divided by its suspension at
  \<open>await loadPromise\<close>.  The first part is the call up to that suspension.  It returns at once
  when \<open>trie\<close> is set; it returns the stored promise when there is one; otherwise it starts
  the asynchronous function (which issues the fetch of \<open>metaUrl\<close> before it suspends),
  stores the new promise in \<open>loadPromise\<close> and waits for it.  The argument \<open>metaUrl\<close> is
  always given here; a call without it is the call with \<open>"/dict.meta.json"\<close>.
\<close>

datatype call_result = Resolved | Joined promise | Started promise

definition loadDictionary_call :: "jsstring \<Rightarrow> runtime \<Rightarrow> call_result \<times> runtime" where
  "loadDictionary_call metaUrl s =
     (if trie s \<noteq> None then (Resolved, s)
      else (case loadPromise s of
              Some p \<Rightarrow> (Joined p, s)
            | None \<Rightarrow>
                (let p = length (promises s) in
                 (Started p,
                  s\<lparr>loadPromise := Some p,
                    promises := promises s @ [Pending metaUrl],
                    awaiting := awaiting s @ [p],
                    fetched := fetched s @ [metaUrl]\<rparr>))))"

text \<open>
  The second part: the asynchronous function of the promise \<open>p\<close> runs to its end in the
  environment \<open>e\<close>.  It assigns \<open>trie\<close> and fulfils \<open>p\<close>, or rejects \<open>p\<close>.  Nothing happens
  when \<open>p\<close> is not pending.
\<close>

definition loadTask_complete :: "env \<Rightarrow> promise \<Rightarrow> runtime \<Rightarrow> runtime" where
  "loadTask_complete e p s =
     (if p < length (promises s) then
        (case promises s ! p of
           Pending metaUrl \<Rightarrow>
             (case loadTask e metaUrl of
                (urls, Inr t) \<Rightarrow>
                  s\<lparr>trie := Some t, promises := (promises s)[p := Fulfilled],
                    fetched := fetched s @ urls\<rparr>
              | (urls, Inl err) \<Rightarrow>
                  s\<lparr>promises := (promises s)[p := Rejected err],
                    fetched := fetched s @ urls\<rparr>)
         | _ \<Rightarrow> s)
      else s)"

text \<open>
  The third part: the caller that started \<open>p\<close> resumes once \<open>p\<close> is settled, runs the
  \<open>finally\<close> block, and returns or rethrows.  The result is \<open>None\<close> while the caller still
  waits.
\<close>

definition loadDictionary_resume :: "promise \<Rightarrow> runtime \<Rightarrow> (error + unit) option \<times> runtime" where
  "loadDictionary_resume p s =
     (if p \<in> set (awaiting s) \<and> p < length (promises s) then
        (case promises s ! p of
           Pending _ \<Rightarrow> (None, s)
         | Fulfilled \<Rightarrow>
             (Some (Inr ()), s\<lparr>loadPromise := None, awaiting := removeAll p (awaiting s)\<rparr>)
         | Rejected err \<Rightarrow>
             (Some (Inl err), s\<lparr>loadPromise := None, awaiting := removeAll p (awaiting s)\<rparr>))
      else (None, s))"

text \<open>What a caller holding the promise \<open>p\<close> observes: \<open>None\<close> while \<open>p\<close> is pending.\<close>

definition observed :: "promise \<Rightarrow> runtime \<Rightarrow> (error + unit) option" where
  "observed p s =
     (if p < length (promises s) then
        (case promises s ! p of
           Pending _ \<Rightarrow> None
         | Fulfilled \<Rightarrow> Some (Inr ())
         | Rejected err \<Rightarrow> Some (Inl err))
      else None)"

text \<open>
  A call of \<open>loadDictionary\<close> that is awaited with nothing else running in between: the
  result the caller gets (\<open>None\<close> when it joined a load that is still pending) and the state
  afterwards.
\<close>

definition loadDictionary :: "env \<Rightarrow> jsstring \<Rightarrow> runtime \<Rightarrow> (error + unit) option \<times> runtime" where
  "loadDictionary e metaUrl s =
     (case loadDictionary_call metaUrl s of
        (Resolved, s1) \<Rightarrow> (Some (Inr ()), s1)
      | (Joined p, s1) \<Rightarrow> (observed p s1, s1)
      | (Started p, s1) \<Rightarrow> loadDictionary_resume p (loadTask_complete e p s1))"

text \<open>
  The runs of the module: any interleaving of calls of \<open>loadDictionary\<close>, of asynchronous
  functions reaching their end and of suspended callers resuming.
\<close>

datatype event = Call jsstring | Complete env promise | Resume promise

fun step :: "event \<Rightarrow> runtime \<Rightarrow> runtime" where
  "step (Call metaUrl) s = snd (loadDictionary_call metaUrl s)"
| "step (Complete e p) s = loadTask_complete e p s"
| "step (Resume p) s = snd (loadDictionary_resume p s)"

fun run :: "event list \<Rightarrow> runtime \<Rightarrow> runtime" where
  "run [] s = s"
| "run (ev # evs) s = run evs (step ev s)"

definition is_pending :: "runtime \<Rightarrow> promise \<Rightarrow> bool" where
  "is_pending s p =
     (p < length (promises s) \<and> (case promises s ! p of Pending _ \<Rightarrow> True | _ \<Rightarrow> False))"

text \<open>
  The invariant behind the single flight: a pending load is the one stored in
  \<open>loadPromise\<close>, and so is the load that a suspended caller waits for.
\<close>

definition single_flight :: "runtime \<Rightarrow> bool" where
  "single_flight s \<longleftrightarrow>
     (\<forall>q. is_pending s q \<longrightarrow> loadPromise s = Some q)
     \<and> (\<forall>p \<in> set (awaiting s). loadPromise s = Some p)"

text \<open>
  Environments for examples.  The server answers the default metadata URL with the status
  \<open>metaStatus\<close> and every other URL with \<open>dawgStatus\<close> (\<open>ok\<close> is the status being in
  200..299); the metadata document names no artifact; \<open>window\<close> is undefined; and both
  imports resolve to the module \<open>m\<close>, or are rejected when \<open>m\<close> is \<open>None\<close>.
\<close>

definition exampleEnv :: "nat \<Rightarrow> nat \<Rightarrow> PTrieModule option \<Rightarrow> env" where
  "exampleEnv metaStatus dawgStatus m =
     \<lparr>env_fetch =
        (\<lambda>url. if url = js ''/dict.meta.json''
           then \<lparr>resp_ok = (200 \<le> metaStatus \<and> metaStatus \<le> 299), resp_status = metaStatus,
                 resp_json = \<lparr>meta_artifacts = None\<rparr>, resp_text = []\<rparr>
           else \<lparr>resp_ok = (200 \<le> dawgStatus \<and> dawgStatus \<le> 299), resp_status = dawgStatus,
                 resp_json = \<lparr>meta_artifacts = None\<rparr>, resp_text = js ''packed''\<rparr>),
      env_window = None,
      env_import = (\<lambda>specifier. m)\<rparr>"

definition exampleModule :: PTrieModule where
  "exampleModule = \<lparr>mod_PTrie = Some (\<lambda>packed. specTrie [js ''A'']), mod_default = None\<rparr>"

section \<open>Properties of normalizeWord\<close>

lemma upperUnit_AZ:
  assumes "isAZ c"
  shows "upperUnit c = [c]"
proof -
  have upper: "c \<le> 0x5A"
    using assms by (simp add: isAZ_def)
  have not_lower: "\<not> 0x61 \<le> c"
  proof
    assume "0x61 \<le> c"
    then have "(0x61 :: code_unit) \<le> 0x5A"
      using upper by (rule order_trans)
    then show False by simp
  qed
  show ?thesis
    using upper not_lower by (auto simp: upperUnit_def)
qed

lemma toUpperCase_AZ: "list_all isAZ s \<Longrightarrow> toUpperCase s = s"
  by (induction s) (simp_all add: toUpperCase_def upperUnit_AZ)

lemma normalizeWord_AZ: "list_all isAZ s \<Longrightarrow> normalizeWord s = s"
  by (simp add: normalizeWord_def toUpperCase_AZ list_all_iff)

lemma list_all_normalizeWord: "list_all isAZ (normalizeWord input)"
  by (simp add: normalizeWord_def list_all_iff)

text \<open>
  C10: for every input string, \<open>normalizeWord\<close> returns a string of letters \<open>A\<close>..\<open>Z\<close> only,
  and normalising a second time changes nothing.
\<close>

theorem normalizeWord_alphabet_idempotent:
  "list_all isAZ (normalizeWord s) \<and> normalizeWord (normalizeWord s) = normalizeWord s"
  by (simp add: list_all_normalizeWord normalizeWord_AZ)

section \<open>Properties of the queries\<close>

lemma ensureLoaded_None: "trie s = None \<Longrightarrow> ensureLoaded s = (Inl NotLoadedError, s)"
  by (simp add: ensureLoaded_def)

lemma ensureLoaded_Some: "trie s = Some t \<Longrightarrow> ensureLoaded s = (Inr t, s)"
  by (simp add: ensureLoaded_def)

lemma isWord_empty: "normalizeWord w = [] \<Longrightarrow> isWord w s = (Inr False, s)"
  by (simp add: isWord_def)

lemma isPrefix_empty: "normalizeWord w = [] \<Longrightarrow> isPrefix w s = (Inr False, s)"
  by (simp add: isPrefix_def)

lemma isWord_not_loaded:
  "trie s = None \<Longrightarrow> normalizeWord w \<noteq> [] \<Longrightarrow> isWord w s = (Inl NotLoadedError, s)"
  by (simp add: isWord_def ensureLoaded_None)

lemma isPrefix_not_loaded:
  "trie s = None \<Longrightarrow> normalizeWord w \<noteq> [] \<Longrightarrow> isPrefix w s = (Inl NotLoadedError, s)"
  by (simp add: isPrefix_def ensureLoaded_None)

lemma isWord_loaded:
  "trie s = Some t \<Longrightarrow> normalizeWord w \<noteq> [] \<Longrightarrow>
   isWord w s = (Inr (trie_isWord t (normalizeWord w)), s)"
  by (simp add: isWord_def ensureLoaded_Some)

lemma isPrefix_loaded:
  "trie s = Some t \<Longrightarrow> normalizeWord w \<noteq> [] \<Longrightarrow>
   isPrefix w s =
     (case trie_isPrefix t of
        Some f \<Rightarrow> (Inr (f (normalizeWord w)), s)
      | None \<Rightarrow>
          (case trie_hasPrefix t of
             Some f \<Rightarrow> (Inr (f (normalizeWord w)), s)
           | None \<Rightarrow>
               (case trie_completions t of
                  Some f \<Rightarrow> (Inr (length (f (normalizeWord w) (Some 1)) > 0), s)
                | None \<Rightarrow> (Inl NoPrefixLookupError, s))))"
  by (simp add: isPrefix_def ensureLoaded_Some Let_def)

lemma normalizeWord_Nil: "normalizeWord [] = []"
  by (simp add: normalizeWord_def toUpperCase_def)

lemma trie_loaded: "trie (loaded t) = Some t"
  by (simp add: loaded_def)

lemma trie_initial: "trie initial = None"
  by (simp add: initial_def)

lemmas normalize_eval = normalizeWord_def toUpperCase_def upperUnit_def isAZ_def js_def

text \<open>
  C1, as the code has it: \<open>isPrefix\<close> returns \<open>false\<close> for the empty string in every state,
  loaded or not and whatever the word list, because it returns before it looks at the trie.
\<close>

theorem isPrefix_empty_string_false: "fst (isPrefix (js '''') s) = Inr False"
  by (simp add: isPrefix_empty normalizeWord_Nil js_def)

text \<open>
  C1 as stated fails: on the dictionary of the words A, AN, AND, ANT, \<open>isPrefix("")\<close> is not
  \<open>true\<close>.
\<close>

theorem isPrefix_empty_string_counterexample:
  "\<not> fst (isPrefix (js '''') (loaded (specTrie [js ''A'', js ''AN'', js ''AND'', js ''ANT'']))) = Inr True"
  by (simp add: isPrefix_empty normalizeWord_Nil js_def)

text \<open>
  C2, as the code has it: before a load has completed (\<open>trie\<close> is still \<open>null\<close>), \<open>isWord\<close>
  and \<open>isPrefix\<close> throw the not-loaded error exactly for the inputs whose normalised form
  is not empty; for an input whose normalised form is empty they return \<open>false\<close>.
\<close>

theorem query_before_load:
  assumes "trie s = None"
  shows "fst (isWord w s) = (if normalizeWord w = [] then Inr False else Inl NotLoadedError)
       \<and> fst (isPrefix w s) = (if normalizeWord w = [] then Inr False else Inl NotLoadedError)"
  using assms by (simp add: isWord_empty isPrefix_empty isWord_not_loaded isPrefix_not_loaded)

theorem query_before_load_witness:
  "trie initial = None
   \<and> fst (isWord (js ''A'') initial) = Inl NotLoadedError
   \<and> fst (isPrefix (js ''QU'') initial) = Inl NotLoadedError"
  using query_before_load [OF trie_initial, of "js ''A''"]
    query_before_load [OF trie_initial, of "js ''QU''"]
  by (simp add: trie_initial normalize_eval)

text \<open>
  C2 as stated fails: before any load, \<open>isWord("123")\<close> returns \<open>false\<close> and throws nothing.
\<close>

theorem query_before_load_counterexample:
  "trie initial = None \<and> fst (isWord (js ''123'') initial) = Inr False"
  by (simp add: trie_initial isWord_empty normalize_eval)

text \<open>
  C3, as the code has it: on a loaded dictionary \<open>isWord\<close> never throws, and \<open>isPrefix\<close>
  throws exactly when the normalised input is not empty and the loaded trie has none of
  the methods \<open>isPrefix\<close>, \<open>hasPrefix\<close> and \<open>completions\<close>; the error is then the one saying
  that the trie exposes no prefix lookup method.
\<close>

theorem loaded_query_errors:
  assumes "trie s = Some t"
  shows "(\<exists>b. fst (isWord w s) = Inr b)
       \<and> (\<forall>e. fst (isPrefix w s) = Inl e \<longleftrightarrow>
              (e = NoPrefixLookupError \<and> normalizeWord w \<noteq> [] \<and> trie_isPrefix t = None
               \<and> trie_hasPrefix t = None \<and> trie_completions t = None))"
proof (cases "normalizeWord w = []")
  case True
  then show ?thesis
    by (auto simp: isWord_empty isPrefix_empty)
next
  case False
  then show ?thesis
    using assms by (auto simp: isWord_loaded isPrefix_loaded split: option.splits)
qed

theorem loaded_query_errors_witness:
  "trie (loaded (specTrie [js ''AN''])) = Some (specTrie [js ''AN''])
   \<and> (\<exists>b. fst (isWord (js ''an'') (loaded (specTrie [js ''AN'']))) = Inr b)
   \<and> (\<forall>e. fst (isPrefix (js ''a'') (loaded (specTrie [js ''AN'']))) \<noteq> Inl e)"
proof -
  have exposed: "trie_isPrefix (specTrie [js ''AN'']) \<noteq> None"
    by (simp add: specTrie_def)
  show ?thesis
    using loaded_query_errors [where w = "js ''an''", OF trie_loaded [of "specTrie [js ''AN'']"]]
      loaded_query_errors [where w = "js ''a''", OF trie_loaded [of "specTrie [js ''AN'']"]]
      exposed
    by (simp add: trie_loaded)
qed

text \<open>
  C3 as stated fails: a loaded trie that has \<open>isWord\<close> only makes \<open>isPrefix("A")\<close> throw an
  error that is not the not-loaded error.
\<close>

theorem loaded_query_errors_counterexample:
  "fst (isPrefix (js ''A'')
      (loaded \<lparr>trie_isWord = (\<lambda>s. False), trie_isPrefix = None, trie_hasPrefix = None,
               trie_completions = None\<rparr>)) = Inl NoPrefixLookupError
   \<and> NoPrefixLookupError \<noteq> NotLoadedError"
  by (simp add: isPrefix_def ensureLoaded_def loaded_def normalize_eval)

text \<open>
  C5, as the code has it: \<open>isWord\<close> normalises its input itself.  On a loaded dictionary it
  returns \<open>false\<close> when the normalised input is empty and the trie's answer on the normalised
  input otherwise; the trie is asked about the input as given when that input is a
  non-empty string of letters \<open>A\<close>..\<open>Z\<close>.
\<close>

theorem isWord_normalizes:
  assumes "trie s = Some t"
  shows "fst (isWord w s) =
           Inr (if normalizeWord w = [] then False else trie_isWord t (normalizeWord w))
       \<and> (list_all isAZ w \<and> w \<noteq> [] \<longrightarrow> fst (isWord w s) = Inr (trie_isWord t w))"
proof (cases "normalizeWord w = []")
  case True
  then show ?thesis
    by (auto simp: isWord_empty normalizeWord_AZ)
next
  case False
  then show ?thesis
    using assms by (auto simp: isWord_loaded normalizeWord_AZ)
qed

theorem isWord_normalizes_witness:
  "trie (loaded (specTrie [js ''AND''])) = Some (specTrie [js ''AND''])
   \<and> fst (isWord (js ''and'') (loaded (specTrie [js ''AND''])))
       = Inr (trie_isWord (specTrie [js ''AND'']) (js ''AND''))
   \<and> list_all isAZ (js ''AND'') \<and> js ''AND'' \<noteq> []
   \<and> fst (isWord (js ''AND'') (loaded (specTrie [js ''AND''])))
       = Inr (trie_isWord (specTrie [js ''AND'']) (js ''AND''))"
  using isWord_normalizes [where w = "js ''and''", OF trie_loaded [of "specTrie [js ''AND'']"]]
    isWord_normalizes [where w = "js ''AND''", OF trie_loaded [of "specTrie [js ''AND'']"]]
  by (simp add: trie_loaded normalize_eval)

text \<open>
  C5 as stated fails: on the dictionary of the one word AND, \<open>isWord("and")\<close> is not the
  trie's answer on the string \<open>and\<close> as given.
\<close>

theorem isWord_normalizes_counterexample:
  "fst (isWord (js ''and'') (loaded (specTrie [js ''AND''])))
     \<noteq> Inr (trie_isWord (specTrie [js ''AND'']) (js ''and''))"
  by (simp add: isWord_def ensureLoaded_def loaded_def specTrie_def normalize_eval Let_def)

text \<open>
  C9: \<open>isWord\<close> and \<open>isPrefix\<close> leave the state as it is, the two module variables \<open>trie\<close>
  and \<open>loadPromise\<close> included, whether they return or throw.
\<close>

theorem queries_leave_state:
  "snd (isWord w s) = s \<and> snd (isPrefix w s) = s"
  by (cases "trie s")
    (simp_all add: isWord_def isPrefix_def ensureLoaded_def Let_def split: option.splits)

section \<open>Properties of assertSortedUnique\<close>

declare assertSortedUnique_loop.simps [simp del]

lemma loop_accepts_iff:
  "assertSortedUnique_loop ws i = Inr () \<longleftrightarrow>
     (\<forall>j. i \<le> j \<and> j < length ws \<longrightarrow> ws ! (j - 1) < ws ! j)"
proof (induction ws i rule: assertSortedUnique_loop.induct)
  case (1 ws i)
  show ?case
  proof (cases "i < length ws")
    case False
    then have "assertSortedUnique_loop ws i = Inr ()"
      by (simp add: assertSortedUnique_loop.simps [of ws i])
    moreover have "\<forall>j. i \<le> j \<and> j < length ws \<longrightarrow> ws ! (j - 1) < ws ! j"
      using False by auto
    ultimately show ?thesis by simp
  next
    case inside: True
    show ?thesis
    proof (cases "ws ! (i - 1) \<ge> ws ! i")
      case True
      then have "assertSortedUnique_loop ws i \<noteq> Inr ()"
        using inside by (simp add: assertSortedUnique_loop.simps [of ws i])
      moreover have "\<not> (\<forall>j. i \<le> j \<and> j < length ws \<longrightarrow> ws ! (j - 1) < ws ! j)"
        using True inside by (auto simp: not_less)
      ultimately show ?thesis by simp
    next
      case False
      then have here: "ws ! (i - 1) < ws ! i" by simp
      have "assertSortedUnique_loop ws i = assertSortedUnique_loop ws (i + 1)"
        using inside False by (simp add: assertSortedUnique_loop.simps [of ws i])
      also have "\<dots> = Inr () \<longleftrightarrow>
          (\<forall>j. i + 1 \<le> j \<and> j < length ws \<longrightarrow> ws ! (j - 1) < ws ! j)"
        using "1.IH" inside False by simp
      also have "\<dots> \<longleftrightarrow> (\<forall>j. i \<le> j \<and> j < length ws \<longrightarrow> ws ! (j - 1) < ws ! j)"
      proof
        assume later: "\<forall>j. i + 1 \<le> j \<and> j < length ws \<longrightarrow> ws ! (j - 1) < ws ! j"
        show "\<forall>j. i \<le> j \<and> j < length ws \<longrightarrow> ws ! (j - 1) < ws ! j"
        proof (intro allI impI)
          fix j assume "i \<le> j \<and> j < length ws"
          then show "ws ! (j - 1) < ws ! j"
            using later here by (cases "j = i") auto
        qed
      next
        assume "\<forall>j. i \<le> j \<and> j < length ws \<longrightarrow> ws ! (j - 1) < ws ! j"
        then show "\<forall>j. i + 1 \<le> j \<and> j < length ws \<longrightarrow> ws ! (j - 1) < ws ! j"
          by simp
      qed
      finally show ?thesis .
    qed
  qed
qed

lemma loop_rejects:
  "assertSortedUnique_loop ws i = Inl e \<Longrightarrow>
     \<exists>j. i \<le> j \<and> j < length ws \<and> ws ! (j - 1) \<ge> ws ! j
        \<and> e = NotSortedUnique (j - 1) (ws ! (j - 1)) j (ws ! j)
        \<and> (\<forall>k. i \<le> k \<and> k < j \<longrightarrow> ws ! (k - 1) < ws ! k)"
proof (induction ws i rule: assertSortedUnique_loop.induct)
  case (1 ws i)
  have inside: "i < length ws"
    using "1.prems" by (cases "i < length ws") (simp_all add: assertSortedUnique_loop.simps [of ws i])
  show ?case
  proof (cases "ws ! (i - 1) \<ge> ws ! i")
    case True
    then have "e = NotSortedUnique (i - 1) (ws ! (i - 1)) i (ws ! i)"
      using "1.prems" inside by (simp add: assertSortedUnique_loop.simps [of ws i])
    then show ?thesis
      using True inside by (intro exI [of _ i]) auto
  next
    case False
    then have "assertSortedUnique_loop ws (i + 1) = Inl e"
      using "1.prems" inside by (simp add: assertSortedUnique_loop.simps [of ws i])
    then obtain j where j: "i + 1 \<le> j" "j < length ws" "ws ! (j - 1) \<ge> ws ! j"
        "e = NotSortedUnique (j - 1) (ws ! (j - 1)) j (ws ! j)"
        "\<forall>k. i + 1 \<le> k \<and> k < j \<longrightarrow> ws ! (k - 1) < ws ! k"
      using "1.IH" inside False by blast
    have "\<forall>k. i \<le> k \<and> k < j \<longrightarrow> ws ! (k - 1) < ws ! k"
    proof (intro allI impI)
      fix k assume "i \<le> k \<and> k < j"
      then show "ws ! (k - 1) < ws ! k"
        using j(5) False by (cases "k = i") auto
    qed
    then show ?thesis
      using j by (intro exI [of _ j]) auto
  qed
qed

lemma strictly_increasing_adjacent:
  "sorted_wrt (<) ws \<longleftrightarrow> (\<forall>j. 1 \<le> j \<and> j < length ws \<longrightarrow> ws ! (j - 1) < ws ! j)"
  for ws :: "jsstring list"
proof -
  have "sorted_wrt (<) ws \<longleftrightarrow> (\<forall>i. Suc i < length ws \<longrightarrow> ws ! i < ws ! Suc i)"
    by (rule sorted_wrt_iff_nth_Suc_transp) (auto intro: transpI)
  also have "\<dots> \<longleftrightarrow> (\<forall>j. 1 \<le> j \<and> j < length ws \<longrightarrow> ws ! (j - 1) < ws ! j)"
  proof
    assume a: "\<forall>i. Suc i < length ws \<longrightarrow> ws ! i < ws ! Suc i"
    show "\<forall>j. 1 \<le> j \<and> j < length ws \<longrightarrow> ws ! (j - 1) < ws ! j"
    proof (intro allI impI)
      fix j assume "1 \<le> j \<and> j < length ws"
      then show "ws ! (j - 1) < ws ! j"
        using a [rule_format, of "j - 1"] by simp
    qed
  next
    assume a: "\<forall>j. 1 \<le> j \<and> j < length ws \<longrightarrow> ws ! (j - 1) < ws ! j"
    show "\<forall>i. Suc i < length ws \<longrightarrow> ws ! i < ws ! Suc i"
    proof (intro allI impI)
      fix i assume "Suc i < length ws"
      then show "ws ! i < ws ! Suc i"
        using a [rule_format, of "Suc i"] by simp
    qed
  qed
  finally show ?thesis .
qed

text \<open>
  C6: the validator accepts a word sequence exactly when it is strictly increasing in the
  order of strings; it throws exactly when some adjacent pair has
  \<open>words[i-1] >= words[i]\<close>; and the error it throws names such an index pair and the two
  words found there.
\<close>

theorem assertSortedUnique_strictly_increasing:
  "(assertSortedUnique ws = Inr () \<longleftrightarrow> sorted_wrt (<) ws)
   \<and> ((\<exists>e. assertSortedUnique ws = Inl e) \<longleftrightarrow>
        (\<exists>i. 1 \<le> i \<and> i < length ws \<and> ws ! (i - 1) \<ge> ws ! i))
   \<and> (\<forall>e. assertSortedUnique ws = Inl e \<longrightarrow>
        (\<exists>i. 1 \<le> i \<and> i < length ws \<and> ws ! (i - 1) \<ge> ws ! i
           \<and> e = NotSortedUnique (i - 1) (ws ! (i - 1)) i (ws ! i)))"
proof (intro conjI allI impI)
  show accepts: "assertSortedUnique ws = Inr () \<longleftrightarrow> sorted_wrt (<) ws"
    by (simp add: assertSortedUnique_def loop_accepts_iff strictly_increasing_adjacent)
  have "(\<exists>e. assertSortedUnique ws = Inl e) \<longleftrightarrow> assertSortedUnique ws \<noteq> Inr ()"
    by (cases "assertSortedUnique ws") auto
  also have "\<dots> \<longleftrightarrow> \<not> (\<forall>j. 1 \<le> j \<and> j < length ws \<longrightarrow> ws ! (j - 1) < ws ! j)"
    by (simp add: accepts strictly_increasing_adjacent)
  also have "\<dots> \<longleftrightarrow> (\<exists>i. 1 \<le> i \<and> i < length ws \<and> ws ! (i - 1) \<ge> ws ! i)"
    by (auto simp: not_less)
  finally show "(\<exists>e. assertSortedUnique ws = Inl e) \<longleftrightarrow>
      (\<exists>i. 1 \<le> i \<and> i < length ws \<and> ws ! (i - 1) \<ge> ws ! i)" .
next
  fix e
  assume "assertSortedUnique ws = Inl e"
  then have "assertSortedUnique_loop ws 1 = Inl e"
    by (simp add: assertSortedUnique_def)
  from loop_rejects [OF this]
  show "\<exists>i. 1 \<le> i \<and> i < length ws \<and> ws ! (i - 1) \<ge> ws ! i
      \<and> e = NotSortedUnique (i - 1) (ws ! (i - 1)) i (ws ! i)"
    by blast
qed

theorem assertSortedUnique_strictly_increasing_witness:
  "assertSortedUnique [js ''A'', js ''CAT'', js ''CAR'']
     = Inl (NotSortedUnique 1 (js ''CAT'') 2 (js ''CAR''))
   \<and> \<not> sorted_wrt (<) [js ''A'', js ''CAT'', js ''CAR'']
   \<and> assertSortedUnique [js ''A'', js ''I'', js ''QI''] = Inr ()
   \<and> sorted_wrt (<) [js ''A'', js ''I'', js ''QI'']"
proof -
  have rejected: "assertSortedUnique [js ''A'', js ''CAT'', js ''CAR'']
      = Inl (NotSortedUnique 1 (js ''CAT'') 2 (js ''CAR''))"
    by (simp add: assertSortedUnique_def assertSortedUnique_loop.simps js_def)
  have accepted: "assertSortedUnique [js ''A'', js ''I'', js ''QI''] = Inr ()"
    by (simp add: assertSortedUnique_def assertSortedUnique_loop.simps js_def)
  show ?thesis
    using assertSortedUnique_strictly_increasing [of "[js ''A'', js ''CAT'', js ''CAR'']"]
      assertSortedUnique_strictly_increasing [of "[js ''A'', js ''I'', js ''QI'']"]
    unfolding rejected accepted by simp
qed

text \<open>
  C4, as the code has it: the validator makes no check of the alphabet.  A sequence that
  contains a string with a character outside \<open>A\<close>..\<open>Z\<close> is rejected exactly when it is
  not strictly increasing.
\<close>

theorem assertSortedUnique_outside_alphabet:
  assumes "\<not> list_all (list_all isAZ) ws"
  shows "(\<exists>e. assertSortedUnique ws = Inl e) \<longleftrightarrow> \<not> sorted_wrt (<) ws"
proof -
  have "assertSortedUnique ws = Inr () \<longleftrightarrow> sorted_wrt (<) ws"
    by (simp add: assertSortedUnique_def loop_accepts_iff strictly_increasing_adjacent)
  then show ?thesis
    by (cases "assertSortedUnique ws") auto
qed

theorem assertSortedUnique_outside_alphabet_witness:
  "\<not> list_all (list_all isAZ) [js ''b'', js ''A'']
   \<and> (\<exists>e. assertSortedUnique [js ''b'', js ''A''] = Inl e)
   \<and> \<not> sorted_wrt (<) [js ''b'', js ''A'']"
proof -
  have outside: "\<not> list_all (list_all isAZ) [js ''b'', js ''A'']"
    by (simp add: isAZ_def js_def)
  have "\<not> sorted_wrt (<) [js ''b'', js ''A'']"
    by (simp add: js_def)
  then show ?thesis
    using assertSortedUnique_outside_alphabet [OF outside] outside by simp
qed

text \<open>
  C4 as stated fails: the sequence of the two strings \<open>A\<close> and \<open>b-c\<close> contains characters
  outside \<open>A\<close>..\<open>Z\<close> and is accepted.
\<close>

theorem assertSortedUnique_outside_alphabet_counterexample:
  "\<not> list_all (list_all isAZ) [js ''A'', js ''b-c'']
   \<and> assertSortedUnique [js ''A'', js ''b-c''] = Inr ()"
  by (simp add: assertSortedUnique_def assertSortedUnique_loop.simps isAZ_def js_def)

section \<open>Properties of loading\<close>

lemma call_loaded: "trie s \<noteq> None \<Longrightarrow> loadDictionary_call metaUrl s = (Resolved, s)"
  by (simp add: loadDictionary_call_def)

lemma call_in_flight:
  "trie s = None \<Longrightarrow> loadPromise s = Some p \<Longrightarrow> loadDictionary_call metaUrl s = (Joined p, s)"
  by (simp add: loadDictionary_call_def)

lemma call_idle:
  "trie s = None \<Longrightarrow> loadPromise s = None \<Longrightarrow>
   loadDictionary_call metaUrl s =
     (Started (length (promises s)),
      s\<lparr>loadPromise := Some (length (promises s)),
        promises := promises s @ [Pending metaUrl],
        awaiting := awaiting s @ [length (promises s)],
        fetched := fetched s @ [metaUrl]\<rparr>)"
  by (simp add: loadDictionary_call_def Let_def)

lemma single_flight_initial: "single_flight initial"
  by (simp add: single_flight_def initial_def is_pending_def)

lemma single_flight_call:
  assumes "single_flight s"
  shows "single_flight (snd (loadDictionary_call metaUrl s))"
proof (cases "trie s \<noteq> None \<or> loadPromise s \<noteq> None")
  case True
  then have "snd (loadDictionary_call metaUrl s) = s"
    by (auto simp: loadDictionary_call_def)
  then show ?thesis using assms by simp
next
  case False
  then have idle: "trie s = None" "loadPromise s = None" by simp_all
  have no_pending: "\<not> is_pending s q" for q
    using assms idle by (auto simp: single_flight_def)
  have no_waiter: "awaiting s = []"
    using assms idle by (cases "awaiting s") (auto simp: single_flight_def)
  show ?thesis
    using no_pending no_waiter
    by (auto simp: call_idle [OF idle] single_flight_def is_pending_def nth_append
        split: if_splits)
qed

lemma single_flight_complete:
  assumes "single_flight s"
  shows "single_flight (loadTask_complete e p s)"
  using assms
  by (auto simp: loadTask_complete_def single_flight_def is_pending_def nth_list_update
      split: promise_state.splits prod.splits sum.splits if_splits)

lemma single_flight_resume:
  assumes "single_flight s"
  shows "single_flight (snd (loadDictionary_resume p s))"
proof (cases "p \<in> set (awaiting s) \<and> p < length (promises s) \<and> \<not> is_pending s p")
  case False
  then have "snd (loadDictionary_resume p s) = s"
    by (auto simp: loadDictionary_resume_def is_pending_def split: promise_state.splits)
  then show ?thesis using assms by simp
next
  case True
  then have owner: "loadPromise s = Some p"
    using assms by (simp add: single_flight_def)
  have no_pending: "\<not> is_pending s q" for q
    using assms owner True by (auto simp: single_flight_def)
  have only: "set (awaiting s) \<subseteq> {p}"
    using assms owner by (auto simp: single_flight_def)
  have after: "snd (loadDictionary_resume p s)
      = s\<lparr>loadPromise := None, awaiting := removeAll p (awaiting s)\<rparr>"
    using True
    by (auto simp: loadDictionary_resume_def is_pending_def split: promise_state.splits)
  show ?thesis
    unfolding after using no_pending only
    by (auto simp: single_flight_def is_pending_def)
qed

lemma single_flight_step: "single_flight s \<Longrightarrow> single_flight (step ev s)"
  by (cases ev) (simp_all add: single_flight_call single_flight_complete single_flight_resume)

lemma single_flight_run: "single_flight s \<Longrightarrow> single_flight (run evs s)"
  by (induction evs arbitrary: s) (simp_all add: single_flight_step)

lemma trie_step: "trie s \<noteq> None \<Longrightarrow> trie (step ev s) \<noteq> None"
  by (cases ev)
    (auto simp: loadDictionary_call_def loadTask_complete_def loadDictionary_resume_def
      split: promise_state.splits prod.splits sum.splits if_splits)

lemma trie_run: "trie s \<noteq> None \<Longrightarrow> trie (run evs s) \<noteq> None"
proof (induction evs arbitrary: s)
  case Nil
  then show ?case by simp
next
  case (Cons ev evs)
  from Cons.prems have "trie (step ev s) \<noteq> None"
    by (rule trie_step)
  then have "trie (run evs (step ev s)) \<noteq> None"
    by (rule Cons.IH)
  then show ?case by simp
qed

lemma complete_success:
  "p < length (promises s) \<Longrightarrow> promises s ! p = Pending u \<Longrightarrow> snd (loadTask e u) = Inr t \<Longrightarrow>
   trie (loadTask_complete e p s) = Some t"
  by (auto simp: loadTask_complete_def split: prod.splits)

lemma complete_success_observed:
  "p < length (promises s) \<Longrightarrow> promises s ! p = Pending u \<Longrightarrow> snd (loadTask e u) = Inr t \<Longrightarrow>
   observed p (loadTask_complete e p s) = Some (Inr ())"
  by (auto simp: loadTask_complete_def observed_def split: prod.splits)


lemma loadDictionary_idle:
  assumes "trie s = None" and "loadPromise s = None"
  shows "fst (loadDictionary e metaUrl s)
           = Some (case snd (loadTask e metaUrl) of Inl x \<Rightarrow> Inl x | Inr t \<Rightarrow> Inr ())"
    and "trie (snd (loadDictionary e metaUrl s))
           = (case snd (loadTask e metaUrl) of Inl x \<Rightarrow> None | Inr t \<Rightarrow> Some t)"
    and "loadPromise (snd (loadDictionary e metaUrl s)) = None"
  using assms
  by (auto simp: loadDictionary_def call_idle [OF assms] loadTask_complete_def
      loadDictionary_resume_def nth_append split: prod.splits sum.splits)

lemma loadTask_meta_not_ok:
  "\<not> resp_ok (env_fetch e metaUrl) \<Longrightarrow>
   loadTask e metaUrl = ([], Inl (MetadataLoadError metaUrl (resp_status (env_fetch e metaUrl))))"
  by (simp add: loadTask_def)

lemma example_meta_fails:
  "snd (loadTask (exampleEnv 404 200 (Some exampleModule)) (js ''/dict.meta.json''))
     = Inl (MetadataLoadError (js ''/dict.meta.json'') 404)"
  by (simp add: loadTask_def exampleEnv_def)

lemma example_data_fails:
  "snd (loadTask (exampleEnv 200 500 (Some exampleModule)) (js ''/dict.meta.json''))
     = Inl (DataLoadError (js ''dict.dawg'') 500)"
  by (simp add: loadTask_def exampleEnv_def resolveAssetUrl_def isHttpUrl_def js_def Let_def)

lemma example_ctor_fails:
  "snd (loadTask (exampleEnv 200 200 (Some \<lparr>mod_PTrie = None, mod_default = None\<rparr>))
      (js ''/dict.meta.json'')) = Inl PTrieResolveError"
  by (simp add: loadTask_def exampleEnv_def resolveAssetUrl_def isHttpUrl_def js_def
      loadPTrieCtor_def Let_def)

lemma example_succeeds:
  "snd (loadTask (exampleEnv 200 200 (Some exampleModule)) (js ''/dict.meta.json''))
     = Inr (specTrie [js ''A''])"
  by (simp add: loadTask_def exampleEnv_def resolveAssetUrl_def isHttpUrl_def js_def
      loadPTrieCtor_def exampleModule_def construct_def Let_def)

text \<open>
  C7: when a load started from the idle state (nothing loaded, no load in flight) fails, the
  caller gets the error, \<open>trie\<close> is still \<open>null\<close> and \<open>loadPromise\<close> is \<open>null\<close> again; a next
  call then starts a load of its own, with a new promise, and its result is that of the
  new load alone.  The witness runs the three failures the claim names.
\<close>

theorem loadDictionary_failure_resets:
  assumes "trie s = None" and "loadPromise s = None"
    and "snd (loadTask e metaUrl) = Inl err"
  shows "fst (loadDictionary e metaUrl s) = Some (Inl err)
       \<and> trie (snd (loadDictionary e metaUrl s)) = None
       \<and> loadPromise (snd (loadDictionary e metaUrl s)) = None
       \<and> fst (loadDictionary_call metaUrl' (snd (loadDictionary e metaUrl s)))
           = Started (length (promises (snd (loadDictionary e metaUrl s))))
       \<and> fst (loadDictionary e' metaUrl' (snd (loadDictionary e metaUrl s)))
           = Some (case snd (loadTask e' metaUrl') of Inl x \<Rightarrow> Inl x | Inr t \<Rightarrow> Inr ())"
proof -
  let ?s' = "snd (loadDictionary e metaUrl s)"
  have surfaced: "fst (loadDictionary e metaUrl s) = Some (Inl err)"
    using loadDictionary_idle(1) [OF assms(1,2), of e metaUrl] assms(3) by simp
  have no_trie: "trie ?s' = None"
    using loadDictionary_idle(2) [OF assms(1,2), of e metaUrl] assms(3) by simp
  have no_promise: "loadPromise ?s' = None"
    by (rule loadDictionary_idle(3) [OF assms(1,2)])
  have fresh: "fst (loadDictionary_call metaUrl' ?s') = Started (length (promises ?s'))"
    by (simp add: call_idle [OF no_trie no_promise])
  have again: "fst (loadDictionary e' metaUrl' ?s')
      = Some (case snd (loadTask e' metaUrl') of Inl x \<Rightarrow> Inl x | Inr t \<Rightarrow> Inr ())"
    by (rule loadDictionary_idle(1) [OF no_trie no_promise])
  show ?thesis
    using surfaced no_trie no_promise fresh again by blast
qed

theorem loadDictionary_failure_resets_witness:
  "trie initial = None \<and> loadPromise initial = None
   \<and> fst (loadDictionary (exampleEnv 404 200 (Some exampleModule)) (js ''/dict.meta.json'') initial)
       = Some (Inl (MetadataLoadError (js ''/dict.meta.json'') 404))
   \<and> trie (snd (loadDictionary (exampleEnv 404 200 (Some exampleModule))
       (js ''/dict.meta.json'') initial)) = None
   \<and> loadPromise (snd (loadDictionary (exampleEnv 404 200 (Some exampleModule))
       (js ''/dict.meta.json'') initial)) = None
   \<and> fst (loadDictionary (exampleEnv 200 200 (Some exampleModule)) (js ''/dict.meta.json'')
        (snd (loadDictionary (exampleEnv 404 200 (Some exampleModule))
          (js ''/dict.meta.json'') initial))) = Some (Inr ())
   \<and> fst (loadDictionary (exampleEnv 200 500 (Some exampleModule)) (js ''/dict.meta.json'') initial)
       = Some (Inl (DataLoadError (js ''dict.dawg'') 500))
   \<and> loadPromise (snd (loadDictionary (exampleEnv 200 500 (Some exampleModule))
       (js ''/dict.meta.json'') initial)) = None
   \<and> fst (loadDictionary (exampleEnv 200 200 (Some \<lparr>mod_PTrie = None, mod_default = None\<rparr>))
        (js ''/dict.meta.json'') initial) = Some (Inl PTrieResolveError)
   \<and> loadPromise (snd (loadDictionary
        (exampleEnv 200 200 (Some \<lparr>mod_PTrie = None, mod_default = None\<rparr>))
        (js ''/dict.meta.json'') initial)) = None"
proof -
  have idle: "trie initial = None" "loadPromise initial = None"
    by (simp_all add: initial_def)
  note meta =
    loadDictionary_failure_resets [OF idle example_meta_fails,
      of "js ''/dict.meta.json''" "exampleEnv 200 200 (Some exampleModule)"]
  note data =
    loadDictionary_failure_resets [OF idle example_data_fails,
      of "js ''/dict.meta.json''" "exampleEnv 200 200 (Some exampleModule)"]
  note ctor =
    loadDictionary_failure_resets [OF idle example_ctor_fails,
      of "js ''/dict.meta.json''" "exampleEnv 200 200 (Some exampleModule)"]
  show ?thesis
    using idle meta data ctor by (simp add: example_succeeds)
qed

text \<open>
  C8: a call made while \<open>trie\<close> is \<open>null\<close> and a promise is stored returns that very
  promise and changes nothing (no promise is created, no fetch issued).  Once a pending
  load has completed with success, \<open>trie\<close> is set, every holder of its promise observes the
  success, and every later call, after any further events, returns at once and changes
  nothing.  In every run from the initial state at most one load is pending.
\<close>

theorem loadDictionary_single_flight:
  "(trie s = None \<and> loadPromise s = Some p \<longrightarrow> loadDictionary_call metaUrl s = (Joined p, s))
   \<and> (p < length (promises s) \<and> promises s ! p = Pending u \<and> snd (loadTask e u) = Inr t \<longrightarrow>
        trie (loadTask_complete e p s) = Some t
        \<and> observed p (loadTask_complete e p s) = Some (Inr ())
        \<and> loadDictionary_call metaUrl (run evs (loadTask_complete e p s))
            = (Resolved, run evs (loadTask_complete e p s)))
   \<and> (is_pending (run evs initial) p \<and> is_pending (run evs initial) q \<longrightarrow> p = q)"
proof (intro conjI impI)
  assume "trie s = None \<and> loadPromise s = Some p"
  then show "loadDictionary_call metaUrl s = (Joined p, s)"
    by (simp add: call_in_flight)
next
  assume success:
    "p < length (promises s) \<and> promises s ! p = Pending u \<and> snd (loadTask e u) = Inr t"
  then show "observed p (loadTask_complete e p s) = Some (Inr ())"
    by (simp add: complete_success_observed)
  from success show loaded_now: "trie (loadTask_complete e p s) = Some t"
    by (simp add: complete_success)
  then have "trie (run evs (loadTask_complete e p s)) \<noteq> None"
    by (intro trie_run) simp
  then show "loadDictionary_call metaUrl (run evs (loadTask_complete e p s))
      = (Resolved, run evs (loadTask_complete e p s))"
    by (rule call_loaded)
next
  assume both: "is_pending (run evs initial) p \<and> is_pending (run evs initial) q"
  have "single_flight (run evs initial)"
    by (rule single_flight_run [OF single_flight_initial])
  then have "loadPromise (run evs initial) = Some p" "loadPromise (run evs initial) = Some q"
    using both by (simp_all add: single_flight_def)
  then show "p = q" by simp
qed

theorem loadDictionary_single_flight_witness:
  "trie (step (Call (js ''/dict.meta.json'')) initial) = None
   \<and> loadPromise (step (Call (js ''/dict.meta.json'')) initial) = Some 0
   \<and> loadDictionary_call (js ''/dict.meta.json'') (step (Call (js ''/dict.meta.json'')) initial)
       = (Joined 0, step (Call (js ''/dict.meta.json'')) initial)
   \<and> promises (step (Call (js ''/dict.meta.json'')) initial) ! 0 = Pending (js ''/dict.meta.json'')
   \<and> snd (loadTask (exampleEnv 200 200 (Some exampleModule)) (js ''/dict.meta.json''))
       = Inr (specTrie [js ''A''])
   \<and> observed 0 (loadTask_complete (exampleEnv 200 200 (Some exampleModule)) 0
        (step (Call (js ''/dict.meta.json'')) initial)) = Some (Inr ())
   \<and> loadDictionary_call (js ''/dict.meta.json'')
        (run [Resume 0, Call (js ''/x.json'')]
          (loadTask_complete (exampleEnv 200 200 (Some exampleModule)) 0
            (step (Call (js ''/dict.meta.json'')) initial)))
       = (Resolved,
          run [Resume 0, Call (js ''/x.json'')]
            (loadTask_complete (exampleEnv 200 200 (Some exampleModule)) 0
              (step (Call (js ''/dict.meta.json'')) initial)))
   \<and> is_pending (run [Call (js ''/dict.meta.json''), Call (js ''/x.json'')] initial) 0"
proof -
  let ?url = "js ''/dict.meta.json''"
  let ?s1 = "step (Call ?url) initial"
  have s1: "?s1 = \<lparr>trie = None, loadPromise = Some 0, promises = [Pending ?url],
      awaiting = [0], fetched = [?url]\<rparr>"
    by (simp add: loadDictionary_call_def initial_def)
  have in_flight: "trie ?s1 = None \<and> loadPromise ?s1 = Some 0"
    unfolding s1 by simp
  have pending: "0 < length (promises ?s1) \<and> promises ?s1 ! 0 = Pending ?url
      \<and> snd (loadTask (exampleEnv 200 200 (Some exampleModule)) ?url) = Inr (specTrie [js ''A''])"
    unfolding s1 by (simp add: example_succeeds)
  have one: "is_pending (run [Call ?url, Call (js ''/x.json'')] initial) 0"
    by (simp add: loadDictionary_call_def initial_def is_pending_def)
  show ?thesis
    using loadDictionary_single_flight [of ?s1 0 ?url ?url
        "exampleEnv 200 200 (Some exampleModule)" "specTrie [js ''A'']"
        "[Resume 0, Call (js ''/x.json'')]" 0]
      in_flight pending one
    by blast
qed

end
